theory Spec2Isabelle
  imports Main "HOL-Library.Sublist"
begin

section \<open>The SBOM generator of the CycloneDX webpack plugin\<close>

text \<open>
  A shallow embedding of \<^verbatim>\<open>src/webpack-plugin/bomGenerator.js\<close>: the function
  \<^verbatim>\<open>resolveComponents\<close> with its inner functions \<^verbatim>\<open>buildBom\<close>,
  \<^verbatim>\<open>findDependencyByRef\<close>, \<^verbatim>\<open>toPackageURL\<close> and \<^verbatim>\<open>findRoots\<close>.
  JavaScript values that are a string or \<^verbatim>\<open>undefined\<close> are \<open>string option\<close>;
  mutation of the bom is explicit state passing; an exception is a value of type
  \<open>error\<close>. Console output is not part of the bom and is left out.
\<close>

subsection \<open>Data\<close>

text \<open>The fields of a package.json that the generator reads.\<close>

record descriptor =
  name :: "string option"
  version :: "string option"
  scope :: "string option"

text \<open>What \<^verbatim>\<open>readPkgUp\<close> resolves to when it finds a package.json.\<close>

record pkgUp =
  package :: descriptor
  path :: string

text \<open>A module of the webpack stats: its own resource and the issuer's.\<close>

record issuerData =
  issuer_resource :: "string option"

record moduleData =
  issuer :: "issuerData option"
  resource :: "string option"

datatype error = LookupError string | TypeError

text \<open>
  The libraries the generator calls, which are not part of the repository, are parameters:
  \<^item> \<open>readPkgUp p\<close> is \<^verbatim>\<open>await readPkgUp({cwd: p})\<close>: it throws (\<open>Inl\<close>), finds
    nothing (\<open>Inr None\<close>) or finds a package.json;
  \<^item> \<open>purl group name version\<close> is
    \<^verbatim>\<open>new PackageURL('npm', group, name, version, null, null).toString()\<close>;
  \<^item> \<open>componentBomRef pkg\<close> is \<^verbatim>\<open>new Component(pkg).bomRef\<close>.

  Only \<^verbatim>\<open>readPkgUp\<close> is taken to throw; the constructors return.
\<close>

record env =
  readPkgUp :: "string \<Rightarrow> error + pkgUp option"
  purl :: "string option \<Rightarrow> string \<Rightarrow> string option \<Rightarrow> string"
  componentBomRef :: "descriptor \<Rightarrow> string option"

text \<open>The model classes of the bom: a component wraps the descriptor it was made from.\<close>

record component =
  pkg :: descriptor
  bomRef :: "string option"

text \<open>
  A \<^verbatim>\<open>Dependency\<close> holds a \<^verbatim>\<open>ref\<close> and the field \<^verbatim>\<open>_dependencies\<close>, which is
  \<^verbatim>\<open>undefined\<close> or an array of \<^verbatim>\<open>Dependency\<close> objects.
\<close>

datatype dependency = Dependency (ref: "string option") (deps: "dependency list option")

record tool =
  vendor :: string
  tool_name :: string
  tool_version :: string

record bom =
  metadata_tools :: "tool list"
  components :: "component list"
  dependencies :: "dependency list"

definition new_Component :: "env \<Rightarrow> descriptor \<Rightarrow> component" where
  "new_Component e p = \<lparr>pkg = p, bomRef = componentBomRef e p\<rparr>"

definition addComponent :: "bom \<Rightarrow> component \<Rightarrow> bom" where
  "addComponent b c = b\<lparr>components := components b @ [c]\<rparr>"

definition addDependency :: "bom \<Rightarrow> dependency \<Rightarrow> bom" where
  "addDependency b d = b\<lparr>dependencies := dependencies b @ [d]\<rparr>"

subsection \<open>JavaScript primitives\<close>

text \<open>Truthiness of a value that is a string or \<^verbatim>\<open>undefined\<close>.\<close>

definition truthy :: "string option \<Rightarrow> bool" where
  "truthy v = (case v of None \<Rightarrow> False | Some s \<Rightarrow> s \<noteq> [])"

text \<open>
  \<^verbatim>\<open>/^ignored|^external/g.test(s)\<close> on a regular expression object whose \<^verbatim>\<open>lastIndex\<close>
  is given: the result, and the new \<^verbatim>\<open>lastIndex\<close>. The expression has the global flag,
  so the search starts at \<^verbatim>\<open>lastIndex\<close>; \<^verbatim>\<open>^\<close> (no multiline flag) matches at index
  0 only; a match leaves \<^verbatim>\<open>lastIndex\<close> at its end, a failure resets it to 0.
\<close>

definition ignoredMatcher_test :: "nat \<Rightarrow> string \<Rightarrow> bool \<times> nat" where
  "ignoredMatcher_test lastIndex s =
     (if lastIndex = 0 \<and> prefix ''ignored'' s then (True, 7)
      else if lastIndex = 0 \<and> prefix ''external'' s then (True, 8)
      else (False, 0))"

text \<open>\<^verbatim>\<open>location.includes(s)\<close>: \<open>s\<close> occurs in \<open>location\<close> as a contiguous substring.\<close>

definition includes_str :: "string \<Rightarrow> string \<Rightarrow> bool" where
  "includes_str location s = sublist s location"

text \<open>The keys a \<^verbatim>\<open>for (let d in array)\<close> loop visits: the indices, as decimal strings.\<close>

fun decimal :: "nat \<Rightarrow> string" where
  "decimal n =
     (if n < 10 then [char_of (48 + n)]
      else decimal (n div 10) @ [char_of (48 + n mod 10)])"

definition for_in_keys :: "'a list \<Rightarrow> string list" where
  "for_in_keys xs = map decimal [0..<length xs]"

text \<open>
  \<^verbatim>\<open>d.ref\<close> for a string primitive \<open>d\<close>: the own properties of a string are its length
  and its indices, and \<^verbatim>\<open>String.prototype\<close> has no property \<^verbatim>\<open>ref\<close>, so the lookup
  yields \<^verbatim>\<open>undefined\<close>.
\<close>

definition string_ref :: "string \<Rightarrow> string option" where
  "string_ref d = None"

subsection \<open>toPackageURL\<close>

text \<open>The first argument is the rendering of a \<^verbatim>\<open>PackageURL\<close> (\<open>purl\<close> of the environment).\<close>

definition toPackageURL ::
  "(string option \<Rightarrow> string \<Rightarrow> string option \<Rightarrow> string) \<Rightarrow> 'a descriptor_scheme \<Rightarrow> string option" where
  "toPackageURL PackageURL module =
     (case name module of
        None \<Rightarrow> None
      | Some n \<Rightarrow>
          if n = [] then None
          else
            let group = (if truthy (scope module) then scope module else None);
                group = (if truthy group then map_option ((#) CHR ''@'') group else group)
            in Some (PackageURL group n (version module)))"

subsection \<open>findDependencyByRef\<close>

text \<open>
  What the variables \<^verbatim>\<open>dr\<close> and \<^verbatim>\<open>dd\<close> of \<^verbatim>\<open>buildBom\<close> can hold: \<^verbatim>\<open>undefined\<close>,
  a key returned by \<^verbatim>\<open>findDependencyByRef\<close> (a string), or a reference to a
  \<^verbatim>\<open>Dependency\<close> object, given by its index in \<^verbatim>\<open>bom.dependencies\<close>.
\<close>

datatype depvar = Undefined | Key string | Holder nat

fun truthy_var :: "depvar \<Rightarrow> bool" where
  "truthy_var Undefined = False"
| "truthy_var (Key d) = (d \<noteq> [])"
| "truthy_var (Holder i) = True"

fun findDependencyByRef_loop :: "string list \<Rightarrow> string option \<Rightarrow> depvar" where
  "findDependencyByRef_loop [] r = Undefined"
| "findDependencyByRef_loop (d # ds) r =
     (if truthy (string_ref d) \<and> string_ref d = r then Key d
      else findDependencyByRef_loop ds r)"

definition findDependencyByRef :: "bom \<Rightarrow> string option \<Rightarrow> depvar" where
  "findDependencyByRef b r = findDependencyByRef_loop (for_in_keys (dependencies b)) r"

subsection \<open>buildBom\<close>

text \<open>
  Lines 52 to 61: the paths of an edge that is not skipped. The regular expression object
  is created anew for every module, so its first test starts at \<^verbatim>\<open>lastIndex\<close> 0; the
  second test (of the requester again) runs only when the first one failed.
\<close>

definition ignoredOrExternal :: "string \<Rightarrow> bool" where
  "ignoredOrExternal requester =
     (let (t1, lastIndex) = ignoredMatcher_test 0 requester
      in if t1 then True else fst (ignoredMatcher_test lastIndex requester))"

definition edgePaths :: "moduleData \<Rightarrow> (string \<times> string) option" where
  "edgePaths m =
     (case issuer m of
        None \<Rightarrow> None
      | Some iss \<Rightarrow>
          if \<not> truthy (resource m) then None
          else
            let requester = issuer_resource iss; dependency = resource m
            in
              if \<not> truthy requester \<or> \<not> truthy dependency then None
              else
                (case (requester, dependency) of
                   (Some r, Some d) \<Rightarrow> if ignoredOrExternal r then None else Some (r, d)
                 | _ \<Rightarrow> None))"

text \<open>
  Lines 64 to 71: both lookups in one try block. When the first throws, neither variable
  is assigned; when the second throws, only \<^verbatim>\<open>requesterPkg\<close> is.
\<close>

definition locate :: "env \<Rightarrow> string \<Rightarrow> string \<Rightarrow> pkgUp option \<times> pkgUp option" where
  "locate e requester dependency =
     (case readPkgUp e requester of
        Inl err \<Rightarrow> (None, None)
      | Inr requesterPkg \<Rightarrow>
          (case readPkgUp e dependency of
             Inl err \<Rightarrow> (requesterPkg, None)
           | Inr dependencyPkg \<Rightarrow> (requesterPkg, dependencyPkg)))"

text \<open>The descriptors of an edge that reaches line 74.\<close>

definition resolveEdge :: "env \<Rightarrow> moduleData \<Rightarrow> (descriptor \<times> descriptor) option" where
  "resolveEdge e m =
     (case edgePaths m of
        None \<Rightarrow> None
      | Some (requester, dependency) \<Rightarrow>
          (case locate e requester dependency of
             (Some requesterPkg, Some dependencyPkg) \<Rightarrow>
               Some (package requesterPkg, package dependencyPkg)
           | _ \<Rightarrow> None))"

text \<open>
  \<^verbatim>\<open>if (! dr._dependencies) dr._dependencies = []; dr._dependencies.push(dependency)\<close>
  on a \<^verbatim>\<open>Dependency\<close> object.
\<close>

definition push_dependency :: "dependency \<Rightarrow> dependency \<Rightarrow> dependency" where
  "push_dependency dr d =
     Dependency (ref dr) (Some ((case deps dr of None \<Rightarrow> [] | Some ds \<Rightarrow> ds) @ [d]))"

text \<open>
  Lines 81 to 124, on the bom and the local array \<^verbatim>\<open>bomRefLookup\<close>. Both branches of
  the test at line 83 are empty. When \<^verbatim>\<open>dr\<close> holds a key (a string primitive),
  \<^verbatim>\<open>dr._dependencies\<close> is \<^verbatim>\<open>undefined\<close>, the assignment to it has no effect and
  \<^verbatim>\<open>.push\<close> throws a TypeError.
\<close>

definition insertEdge ::
  "env \<Rightarrow> bom \<times> string option list \<Rightarrow> descriptor \<Rightarrow> descriptor \<Rightarrow>
   error + (bom \<times> string option list)" where
  "insertEdge e st requesterPackage dependencyPackage =
     (let (b, bomRefLookup) = st;
          requesterBomRef = toPackageURL (purl e) requesterPackage;
          dependencyBomRef = toPackageURL (purl e) dependencyPackage
      in
        if dependencyBomRef \<in> set bomRefLookup then Inr (b, bomRefLookup)
        else
          let component = new_Component e dependencyPackage;
              b1 = addComponent b component;
              dr0 = findDependencyByRef b1 requesterBomRef;
              (dr, b2) =
                (if \<not> truthy_var dr0
                 then (Holder (length (dependencies b1)),
                       addDependency b1 (Dependency requesterBomRef None))
                 else (dr0, b1));
              dd = findDependencyByRef b2 dependencyBomRef
          in
            if truthy_var dd then Inr (b2, bomRefLookup @ [dependencyBomRef])
            else
              let dependency = Dependency (bomRef component) None;
                  b3 = addDependency b2 dependency
              in
                if truthy_var dr \<and> dd \<noteq> dr then
                  (case dr of
                     Holder i \<Rightarrow>
                       Inr (b3\<lparr>dependencies :=
                              (dependencies b3)[i := push_dependency (dependencies b3 ! i) dependency]\<rparr>,
                            bomRefLookup @ [dependencyBomRef])
                   | _ \<Rightarrow> Inl TypeError)
                else Inr (b3, bomRefLookup @ [dependencyBomRef]))"

text \<open>One iteration of the loop over \<^verbatim>\<open>modules\<close>.\<close>

definition processEdge ::
  "env \<Rightarrow> bom \<times> string option list \<Rightarrow> moduleData \<Rightarrow> error + (bom \<times> string option list)" where
  "processEdge e st m =
     (case resolveEdge e m of
        None \<Rightarrow> Inr st
      | Some (requesterPackage, dependencyPackage) \<Rightarrow>
          insertEdge e st requesterPackage dependencyPackage)"

fun buildBom_loop ::
  "env \<Rightarrow> bom \<times> string option list \<Rightarrow> moduleData list \<Rightarrow> error + (bom \<times> string option list)" where
  "buildBom_loop e st [] = Inr st"
| "buildBom_loop e st (m # ms) =
     (case processEdge e st m of
        Inl err \<Rightarrow> Inl err
      | Inr st' \<Rightarrow> buildBom_loop e st' ms)"

text \<open>\<^verbatim>\<open>buildBom(bom)\<close> over the modules: \<^verbatim>\<open>bomRefLookup\<close> starts empty.\<close>

definition buildBom :: "env \<Rightarrow> moduleData list \<Rightarrow> bom \<Rightarrow> error + bom" where
  "buildBom e modules b = map_sum id fst (buildBom_loop e (b, []) modules)"

text \<open>
  Lines 191 to 195: a new, empty bom whose metadata names the tool, with the version of the
  plugin's own package.json.
\<close>

definition new_Bom :: bom where
  "new_Bom = \<lparr>metadata_tools = [], components = [], dependencies = []\<rparr>"

definition stamped_bom :: "string \<Rightarrow> bom" where
  "stamped_bom program_version =
     new_Bom\<lparr>metadata_tools :=
       [\<lparr>vendor = ''CycloneDX'', tool_name = ''webpack-plugin'', tool_version = program_version\<rparr>]\<rparr>"

text \<open>\<^verbatim>\<open>resolveComponents(modules)\<close>: the stamped bom, then \<^verbatim>\<open>buildBom\<close>.\<close>

definition resolveComponents :: "env \<Rightarrow> string \<Rightarrow> moduleData list \<Rightarrow> error + bom" where
  "resolveComponents e program_version modules = buildBom e modules (stamped_bom program_version)"

subsection \<open>The graph that a bom describes\<close>

text \<open>
  The relations of a bom: one pair \<open>(ref of the holder, ref of the linked holder)\<close> for
  every entry of the \<^verbatim>\<open>_dependencies\<close> of every holder in \<^verbatim>\<open>bom.dependencies\<close>.
\<close>

definition holder_links :: "dependency \<Rightarrow> (string option \<times> string option) list" where
  "holder_links d = map (\<lambda>d'. (ref d, ref d')) (case deps d of None \<Rightarrow> [] | Some ds \<Rightarrow> ds)"

definition relations :: "bom \<Rightarrow> (string option \<times> string option) list" where
  "relations b = concat (map holder_links (dependencies b))"

text \<open>The canonical identity of a component: that of the descriptor it wraps.\<close>

definition identity :: "env \<Rightarrow> component \<Rightarrow> string option" where
  "identity e c = toPackageURL (purl e) (pkg c)"

text \<open>The requester path of an edge: \<^verbatim>\<open>moduleData.issuer.resource\<close>, when there is an issuer.\<close>

definition requesterPath :: "moduleData \<Rightarrow> string option" where
  "requesterPath m = (case issuer m of None \<Rightarrow> None | Some iss \<Rightarrow> issuer_resource iss)"

text \<open>A descriptor lookup fails: it throws, or it finds nothing.\<close>

definition lookupFails :: "env \<Rightarrow> string \<Rightarrow> bool" where
  "lookupFails e p =
     (case readPkgUp e p of Inl err \<Rightarrow> True | Inr None \<Rightarrow> True | Inr (Some found) \<Rightarrow> False)"

subsection \<open>findRoots\<close>

text \<open>
  Modelled from the spec: the classes \<^verbatim>\<open>DependencyTree\<close> and \<^verbatim>\<open>DependencyNode\<close> that
  \<^verbatim>\<open>findRoots\<close> works on are not in the source file. The tree is a lookup keyed by name,
  then by version, to a node; a node tracks its \<^verbatim>\<open>requiredBy\<close> list and its
  \<^verbatim>\<open>locations\<close>; \<^verbatim>\<open>setRootPackage\<close> marks a node and \<^verbatim>\<open>addRoot\<close> collects it in the
  roots of the tree, the root set. The two objects are association lists in the order of
  \<^verbatim>\<open>Object.keys\<close>; a node in \<open>roots\<close> is the node as it is after the marking.
\<close>

record dependencyNode =
  requiredBy :: "string list"
  locations :: "string list"
  rootPackage :: bool

record dependencyTree =
  lookupMap :: "(string \<times> (string \<times> dependencyNode) list) list"
  roots :: "dependencyNode set"

definition setRootPackage :: "dependencyNode \<Rightarrow> bool \<Rightarrow> dependencyNode" where
  "setRootPackage node r = node\<lparr>rootPackage := r\<rparr>"

definition addRoot :: "dependencyNode set \<Rightarrow> dependencyNode \<Rightarrow> dependencyNode set" where
  "addRoot rs node = insert node rs"

text \<open>The value of the constant \<^verbatim>\<open>rootNode\<close> (line 178).\<close>

definition rootNode :: "dependencyNode \<Rightarrow> bool" where
  "rootNode node =
     (length (requiredBy node) = 0 \<and>
      list_ex (\<lambda>location. \<not> includes_str location ''node_modules'') (locations node))"

text \<open>The inner loop, over the versions of one name; the roots are threaded through.\<close>

fun findRoots_versions ::
  "(string \<times> dependencyNode) list \<Rightarrow> dependencyNode set \<Rightarrow>
   (string \<times> dependencyNode) list \<times> dependencyNode set" where
  "findRoots_versions [] rs = ([], rs)"
| "findRoots_versions ((dependencyVersion, node) # vs) rs =
     (if rootNode node then
        let node' = setRootPackage node (rootNode node);
            (vs', rs') = findRoots_versions vs (addRoot rs node')
        in ((dependencyVersion, node') # vs', rs')
      else
        let (vs', rs') = findRoots_versions vs rs
        in ((dependencyVersion, node) # vs', rs'))"

text \<open>The outer loop, over the names.\<close>

fun findRoots_names ::
  "(string \<times> (string \<times> dependencyNode) list) list \<Rightarrow> dependencyNode set \<Rightarrow>
   (string \<times> (string \<times> dependencyNode) list) list \<times> dependencyNode set" where
  "findRoots_names [] rs = ([], rs)"
| "findRoots_names ((dependencyName, versions) # ns) rs =
     (let (versions', rs') = findRoots_versions versions rs;
          (ns', rs'') = findRoots_names ns rs'
      in ((dependencyName, versions') # ns', rs''))"

definition findRoots :: "dependencyTree \<Rightarrow> dependencyTree" where
  "findRoots dependencyTree =
     (let (m, rs) = findRoots_names (lookupMap dependencyTree) (roots dependencyTree)
      in dependencyTree\<lparr>lookupMap := m, roots := rs\<rparr>)"

text \<open>The nodes of a tree.\<close>

definition nodes_of :: "(string \<times> (string \<times> dependencyNode) list) list \<Rightarrow> dependencyNode list" where
  "nodes_of m = concat (map (\<lambda>(n, vs). map snd vs) m)"

subsection \<open>A sample environment\<close>

text \<open>
  A project \<^verbatim>\<open>/app\<close> with the packages lodash and express under its
  \<^verbatim>\<open>node_modules\<close>, a directory whose package.json cannot be parsed, and a rendering of
  package URLs in the format \<^verbatim>\<open>pkg:npm/[<scope>/]<name>@<version>\<close>.
\<close>

definition sample_purl :: "string option \<Rightarrow> string \<Rightarrow> string option \<Rightarrow> string" where
  "sample_purl namespace n v =
     ''pkg:npm/'' @ (case namespace of None \<Rightarrow> [] | Some g \<Rightarrow> g @ ''/'') @ n @
     (case v of None \<Rightarrow> [] | Some w \<Rightarrow> ''@'' @ w)"

definition app_pkg :: descriptor where
  "app_pkg = \<lparr>name = Some ''app'', version = Some ''1.0.0'', scope = None\<rparr>"

definition lodash_pkg :: descriptor where
  "lodash_pkg = \<lparr>name = Some ''lodash'', version = Some ''4.17.21'', scope = None\<rparr>"

definition express_pkg :: descriptor where
  "express_pkg = \<lparr>name = Some ''express'', version = Some ''4.18.2'', scope = None\<rparr>"

definition sample_readPkgUp :: "string \<Rightarrow> error + pkgUp option" where
  "sample_readPkgUp p =
     (if prefix ''/app/node_modules/lodash/'' p
      then Inr (Some \<lparr>package = lodash_pkg, path = ''/app/node_modules/lodash/package.json''\<rparr>)
      else if prefix ''/app/node_modules/express/'' p
      then Inr (Some \<lparr>package = express_pkg, path = ''/app/node_modules/express/package.json''\<rparr>)
      else if prefix ''/app/'' p
      then Inr (Some \<lparr>package = app_pkg, path = ''/app/package.json''\<rparr>)
      else if prefix ''/broken/'' p
      then Inl (LookupError ''Unexpected token in JSON'')
      else Inr None)"

definition sample_env :: env where
  "sample_env =
     \<lparr>readPkgUp = sample_readPkgUp, purl = sample_purl,
      componentBomRef = toPackageURL sample_purl\<rparr>"

definition edge :: "string \<Rightarrow> string \<Rightarrow> moduleData" where
  "edge requester dependency =
     \<lparr>issuer = Some \<lparr>issuer_resource = Some requester\<rparr>, resource = Some dependency\<rparr>"

text \<open>Two edges with the same dependency, an edge inside one package, and a small tree.\<close>

definition app_lodash :: moduleData where
  "app_lodash = edge ''/app/src/index.js'' ''/app/node_modules/lodash/index.js''"

definition express_lodash :: moduleData where
  "express_lodash = edge ''/app/node_modules/express/index.js'' ''/app/node_modules/lodash/index.js''"

definition app_app :: moduleData where
  "app_app = edge ''/app/src/index.js'' ''/app/src/util.js''"

definition sample_tree :: dependencyTree where
  "sample_tree =
     \<lparr>lookupMap =
        [(''app'',
          [(''1.0.0'', \<lparr>requiredBy = [], locations = [''/app/src/index.js''], rootPackage = False\<rparr>)]),
         (''lodash'',
          [(''4.17.21'', \<lparr>requiredBy = [''app''], locations = [''/app/node_modules/lodash/index.js''],
                         rootPackage = False\<rparr>),
           (''3.0.0'', \<lparr>requiredBy = [], locations = [''/app/node_modules/lodash/index.js''],
                       rootPackage = False\<rparr>)])],
      roots = {}\<rparr>"


text \<open>
  A second environment: two packages named utils, with the scopes a and b in their
  descriptors, and a \<^verbatim>\<open>Component\<close> class that makes the reference from the name and the
  version and does not read the field \<^verbatim>\<open>scope\<close>.
\<close>

definition utils_a_pkg :: descriptor where
  "utils_a_pkg = \<lparr>name = Some ''utils'', version = Some ''1.0.0'', scope = Some ''a''\<rparr>"

definition utils_b_pkg :: descriptor where
  "utils_b_pkg = \<lparr>name = Some ''utils'', version = Some ''1.0.0'', scope = Some ''b''\<rparr>"

definition scoped_readPkgUp :: "string \<Rightarrow> error + pkgUp option" where
  "scoped_readPkgUp p =
     (if prefix ''/app/node_modules/@a/utils/'' p
      then Inr (Some \<lparr>package = utils_a_pkg, path = ''/app/node_modules/@a/utils/package.json''\<rparr>)
      else if prefix ''/app/node_modules/@b/utils/'' p
      then Inr (Some \<lparr>package = utils_b_pkg, path = ''/app/node_modules/@b/utils/package.json''\<rparr>)
      else if prefix ''/app/'' p
      then Inr (Some \<lparr>package = app_pkg, path = ''/app/package.json''\<rparr>)
      else Inr None)"

definition scope_blind_env :: env where
  "scope_blind_env =
     \<lparr>readPkgUp = scoped_readPkgUp, purl = sample_purl,
      componentBomRef = (\<lambda>p. toPackageURL sample_purl (p\<lparr>scope := None\<rparr>))\<rparr>"



subsection \<open>Inside a node_modules directory, in the words of the specification\<close>

text \<open>
  This definition follows the words of the specification, not the source: a location is
  inside a node_modules directory when one of the directories on its path, the segments
  between the slashes before the last one, is named \<^verbatim>\<open>node_modules\<close>.
\<close>

fun split_path :: "string \<Rightarrow> string \<Rightarrow> string list" where
  "split_path cur [] = [cur]"
| "split_path cur (c # cs) =
     (if c = CHR ''/'' then cur # split_path [] cs else split_path (cur @ [c]) cs)"

definition spec_inside_node_modules :: "string \<Rightarrow> bool" where
  "spec_inside_node_modules location =
     (''node_modules'' \<in> set (butlast (split_path [] location)))"

text \<open>A tree with one node, whose only location is in a directory named like a backup.\<close>

definition backup_node :: dependencyNode where
  "backup_node =
     \<lparr>requiredBy = [], locations = [''/app/my_node_modules_x/c.js''], rootPackage = False\<rparr>"

definition backup_tree :: dependencyTree where
  "backup_tree = \<lparr>lookupMap = [(''c'', [(''1.0.0'', backup_node)])], roots = {}\<rparr>"

section \<open>Properties\<close>

subsection \<open>Shared lemmas\<close>

lemma findDependencyByRef_loop_undefined: "findDependencyByRef_loop ks r = Undefined"
  by (induction ks) (simp_all add: string_ref_def truthy_def)

lemma findDependencyByRef_never_finds: "findDependencyByRef b r = Undefined"
  by (simp add: findDependencyByRef_def findDependencyByRef_loop_undefined)

lemma insertEdge_eq:
  "insertEdge e (b, l) rp dp =
     (if toPackageURL (purl e) dp \<in> set l then Inr (b, l)
      else Inr (b\<lparr>components := components b @ [new_Component e dp],
                  dependencies := dependencies b @
                    [Dependency (toPackageURL (purl e) rp)
                       (Some [Dependency (componentBomRef e dp) None]),
                     Dependency (componentBomRef e dp) None]\<rparr>,
                l @ [toPackageURL (purl e) dp]))"
  by (simp add: insertEdge_def Let_def addComponent_def addDependency_def push_dependency_def
      new_Component_def nth_append findDependencyByRef_never_finds)

lemma processEdge_eq:
  "processEdge e (b, l) m =
     (case resolveEdge e m of
        None \<Rightarrow> Inr (b, l)
      | Some (rp, dp) \<Rightarrow>
          if toPackageURL (purl e) dp \<in> set l then Inr (b, l)
          else Inr (b\<lparr>components := components b @ [new_Component e dp],
                      dependencies := dependencies b @
                        [Dependency (toPackageURL (purl e) rp)
                           (Some [Dependency (componentBomRef e dp) None]),
                         Dependency (componentBomRef e dp) None]\<rparr>,
                    l @ [toPackageURL (purl e) dp]))"
  by (simp add: processEdge_def insertEdge_eq split: option.splits)

lemma processEdge_total: "\<exists>st'. processEdge e st m = Inr st'"
  by (cases st) (simp add: processEdge_eq split: option.splits)

lemma buildBom_loop_total: "\<exists>st'. buildBom_loop e st ms = Inr st'"
proof (induction ms arbitrary: st)
  case Nil
  show ?case by simp
next
  case (Cons m ms)
  obtain st1 where "processEdge e st m = Inr st1"
    using processEdge_total by blast
  then show ?case
    using Cons.IH [of st1] by simp
qed

lemma buildBom_loop_append:
  "buildBom_loop e st (xs @ ys) =
     (case buildBom_loop e st xs of Inl err \<Rightarrow> Inl err | Inr st' \<Rightarrow> buildBom_loop e st' ys)"
  by (induction xs arbitrary: st) (simp_all split: sum.splits)

lemma buildBom_loop_skip:
  assumes "\<And>st. processEdge e st m = Inr st"
  shows "buildBom_loop e st (ms1 @ m # ms2) = buildBom_loop e st (ms1 @ ms2)"
  by (simp add: buildBom_loop_append assms split: sum.splits)

text \<open>An invariant of the state that every iteration keeps holds when the loop is over.\<close>

lemma buildBom_loop_invariant:
  assumes "buildBom_loop e st ms = Inr st'"
    and "P st"
    and "\<And>s m s'. m \<in> set ms \<Longrightarrow> P s \<Longrightarrow> processEdge e s m = Inr s' \<Longrightarrow> P s'"
  shows "P st'"
  using assms
proof (induction ms arbitrary: st)
  case Nil
  then show ?case by simp
next
  case (Cons m ms)
  obtain st1 where st1: "processEdge e st m = Inr st1"
    using processEdge_total by blast
  have "P st1"
    using Cons.prems(2) Cons.prems(3) [of m st st1] st1 by simp
  moreover have "buildBom_loop e st1 ms = Inr st'"
    using Cons.prems(1) st1 by simp
  moreover have "P s'" if "x \<in> set ms" "P s" "processEdge e s x = Inr s'" for s x s'
    using Cons.prems(3) [of x s s'] that by simp
  ultimately show ?case
    using Cons.IH [of st1] by blast
qed

lemma stamped_bom_empty [simp]:
  "components (stamped_bom v) = []" "dependencies (stamped_bom v) = []"
  by (simp_all add: stamped_bom_def new_Bom_def)

lemma resolveComponents_eq:
  "resolveComponents e v ms = Inr b \<longleftrightarrow>
     (\<exists>l. buildBom_loop e
            (stamped_bom v, []) ms = Inr (b, l))"
proof -
  obtain st' where "buildBom_loop e
            (stamped_bom v, []) ms = Inr st'"
    using buildBom_loop_total by blast
  then show ?thesis
    by (cases st') (auto simp: resolveComponents_def buildBom_def)
qed

lemma resolveComponents_total: "\<exists>b. resolveComponents e v ms = Inr b"
proof -
  obtain st' where "buildBom_loop e
            (stamped_bom v, []) ms = Inr st'"
    using buildBom_loop_total by blast
  then show ?thesis
    by (cases st') (auto simp: resolveComponents_eq)
qed

subsection \<open>The lookup array mirrors the components and guards the relations\<close>

lemma processEdge_components_lookup:
  assumes "processEdge e s m = Inr s'"
    and "map (identity e) (components (fst s)) = snd s \<and> distinct (snd s)"
  shows "map (identity e) (components (fst s')) = snd s' \<and> distinct (snd s')"
  using assms
  by (cases s)
     (auto simp: processEdge_eq identity_def new_Component_def split: option.splits if_splits)

lemma relations_components_update [simp]:
  "relations (b\<lparr>components := cs\<rparr>) = relations b"
  by (simp add: relations_def)


lemma processEdge_lookup_mono:
  assumes "processEdge e s m = Inr s'"
  shows "set (snd s) \<subseteq> set (snd s')"
  using assms
  by (cases s) (auto simp: processEdge_eq split: option.splits if_splits)

lemma processEdge_lookup_has_dependency:
  assumes "processEdge e s m = Inr s'" and "resolveEdge e m = Some (rp, dp)"
  shows "toPackageURL (purl e) dp \<in> set (snd s')"
  using assms
  by (cases s) (auto simp: processEdge_eq split: option.splits if_splits)

lemma buildBom_loop_lookup:
  assumes "buildBom_loop e st ms = Inr st'"
  shows "set (snd st) \<subseteq> set (snd st') \<and>
     (\<forall>m\<in>set ms. \<forall>rp dp. resolveEdge e m = Some (rp, dp) \<longrightarrow>
        toPackageURL (purl e) dp \<in> set (snd st'))"
  using assms
proof (induction ms arbitrary: st)
  case Nil
  then show ?case by simp
next
  case (Cons m ms)
  obtain st1 where st1: "processEdge e st m = Inr st1"
    using processEdge_total by blast
  then have rest: "buildBom_loop e st1 ms = Inr st'"
    using Cons.prems by simp
  have ih: "set (snd st1) \<subseteq> set (snd st') \<and>
     (\<forall>m\<in>set ms. \<forall>rp dp. resolveEdge e m = Some (rp, dp) \<longrightarrow>
        toPackageURL (purl e) dp \<in> set (snd st'))"
    using Cons.IH [OF rest] .
  have mono: "set (snd st) \<subseteq> set (snd st1)"
    using processEdge_lookup_mono [OF st1] .
  have here: "\<forall>rp dp. resolveEdge e m = Some (rp, dp) \<longrightarrow>
      toPackageURL (purl e) dp \<in> set (snd st')"
    using processEdge_lookup_has_dependency [OF st1] ih by blast
  show ?case
    using ih mono here by auto
qed

lemma distinct_occurs_once:
  "distinct xs \<Longrightarrow> x \<in> set xs \<Longrightarrow> length (filter (\<lambda>y. y = x) xs) = 1"
  by (induction xs) (auto simp: filter_empty_conv)


lemma processEdge_component_origin:
  assumes "processEdge e s m = Inr s'" and "c \<in> set (components (fst s'))"
  shows "c \<in> set (components (fst s)) \<or>
     (\<exists>rp. resolveEdge e m = Some (rp, pkg c) \<and> bomRef c = componentBomRef e (pkg c))"
  using assms
  by (cases s) (auto simp: processEdge_eq new_Component_def split: option.splits if_splits)

subsection \<open>Filtering and resolution\<close>

lemma ignoredOrExternal_iff:
  "ignoredOrExternal r \<longleftrightarrow> prefix ''ignored'' r \<or> prefix ''external'' r"
  by (simp add: ignoredOrExternal_def ignoredMatcher_test_def)

lemma edgePaths_Some_iff:
  "edgePaths m = Some (r, d) \<longleftrightarrow>
     requesterPath m = Some r \<and> resource m = Some d \<and> r \<noteq> [] \<and> d \<noteq> [] \<and>
     \<not> prefix ''ignored'' r \<and> \<not> prefix ''external'' r"
  by (auto simp: edgePaths_def requesterPath_def truthy_def ignoredOrExternal_iff Let_def
      split: option.splits if_splits)

lemma edgePaths_filtered:
  assumes "\<not> truthy (requesterPath m) \<or> \<not> truthy (resource m) \<or>
     (\<exists>r. requesterPath m = Some r \<and> (prefix ''ignored'' r \<or> prefix ''external'' r))"
  shows "edgePaths m = None"
proof (cases "edgePaths m")
  case None
  then show ?thesis .
next
  case (Some rd)
  obtain r d where "rd = (r, d)" by (cases rd)
  then have "edgePaths m = Some (r, d)" using Some by simp
  then show ?thesis
    using assms by (auto simp: edgePaths_Some_iff truthy_def)
qed

lemma processEdge_unresolved:
  assumes "resolveEdge e m = None"
  shows "processEdge e st m = Inr st"
  using assms by (simp add: processEdge_def)

lemma resolveEdge_lookup_fails:
  assumes "requesterPath m = Some requester" and "resource m = Some dependency"
    and "lookupFails e requester \<or> lookupFails e dependency"
  shows "resolveEdge e m = None"
proof (cases "edgePaths m")
  case None
  then show ?thesis by (simp add: resolveEdge_def)
next
  case (Some rd)
  obtain r d where rd: "rd = (r, d)" by (cases rd)
  then have "edgePaths m = Some (r, d)" using Some by simp
  then have "r = requester" and "d = dependency"
    using assms(1,2) by (simp_all add: edgePaths_Some_iff)
  then show ?thesis
    using Some rd assms(3)
    by (auto simp: resolveEdge_def locate_def lookupFails_def split: sum.splits option.splits)
qed

subsection \<open>findRoots in closed form\<close>

lemma rootNode_iff:
  "rootNode node \<longleftrightarrow>
     requiredBy node = [] \<and> (\<exists>l\<in>set (locations node). \<not> includes_str l ''node_modules'')"
  by (simp add: rootNode_def list_ex_iff)

lemma rootNode_fun:
  "rootNode =
     (\<lambda>node. requiredBy node = [] \<and>
        (\<exists>l\<in>set (locations node). \<not> includes_str l ''node_modules''))"
  by (rule ext) (rule rootNode_iff)

lemma findRoots_versions_eq:
  "findRoots_versions vs rs =
     (map (\<lambda>(v, node). (v, if rootNode node then node\<lparr>rootPackage := True\<rparr> else node)) vs,
      rs \<union> set (map (\<lambda>node. node\<lparr>rootPackage := True\<rparr>) (filter rootNode (map snd vs))))"
proof (induction vs arbitrary: rs)
  case Nil
  show ?case by simp
next
  case (Cons a vs)
  obtain v node where a: "a = (v, node)"
    by (cases a)
  show ?case
  proof (cases "rootNode node")
    case True
    then show ?thesis
      using Cons.IH [of "addRoot rs (node\<lparr>rootPackage := True\<rparr>)"]
      by (simp add: a setRootPackage_def addRoot_def Let_def)
  next
    case False
    then show ?thesis
      using Cons.IH [of rs] by (simp add: a)
  qed
qed

lemma findRoots_names_eq:
  "findRoots_names ns rs =
     (map (\<lambda>(n, vs).
        (n, map (\<lambda>(v, node). (v, if rootNode node then node\<lparr>rootPackage := True\<rparr> else node)) vs)) ns,
      rs \<union> set (map (\<lambda>node. node\<lparr>rootPackage := True\<rparr>) (filter rootNode (nodes_of ns))))"
proof (induction ns arbitrary: rs)
  case Nil
  show ?case by (simp add: nodes_of_def)
next
  case (Cons a ns)
  obtain n vs where a: "a = (n, vs)"
    by (cases a)
  show ?case
    by (simp add: a findRoots_versions_eq Cons.IH nodes_of_def Un_assoc)
qed

subsection \<open>The sample environment evaluated\<close>

lemma sample_env_fields [simp]:
  "readPkgUp sample_env = sample_readPkgUp"
  "purl sample_env = sample_purl"
  "componentBomRef sample_env = toPackageURL sample_purl"
  by (simp_all add: sample_env_def)

lemma sample_identities:
  "toPackageURL sample_purl app_pkg = Some ''pkg:npm/app@1.0.0''"
  "toPackageURL sample_purl lodash_pkg = Some ''pkg:npm/lodash@4.17.21''"
  "toPackageURL sample_purl express_pkg = Some ''pkg:npm/express@4.18.2''"
  by (simp_all add: toPackageURL_def sample_purl_def app_pkg_def lodash_pkg_def express_pkg_def
      truthy_def)

lemma sample_edgePaths:
  "edgePaths app_lodash = Some (''/app/src/index.js'', ''/app/node_modules/lodash/index.js'')"
  "edgePaths express_lodash =
     Some (''/app/node_modules/express/index.js'', ''/app/node_modules/lodash/index.js'')"
  "edgePaths app_app = Some (''/app/src/index.js'', ''/app/src/util.js'')"
  by (simp_all add: edgePaths_Some_iff requesterPath_def edge_def app_lodash_def
      express_lodash_def app_app_def)

lemma sample_resolveEdge:
  "resolveEdge sample_env app_lodash = Some (app_pkg, lodash_pkg)"
  "resolveEdge sample_env express_lodash = Some (express_pkg, lodash_pkg)"
  "resolveEdge sample_env app_app = Some (app_pkg, app_pkg)"
  by (simp_all add: resolveEdge_def sample_edgePaths locate_def sample_readPkgUp_def)

lemma sample_build_shared_dependency:
  "resolveComponents sample_env v [app_lodash, express_lodash] =
     Inr ((stamped_bom v)
       \<lparr>components := [\<lparr>pkg = lodash_pkg, bomRef = Some ''pkg:npm/lodash@4.17.21''\<rparr>],
        dependencies :=
          [Dependency (Some ''pkg:npm/app@1.0.0'')
             (Some [Dependency (Some ''pkg:npm/lodash@4.17.21'') None]),
           Dependency (Some ''pkg:npm/lodash@4.17.21'') None]\<rparr>)"
  by (simp add: resolveComponents_def buildBom_def processEdge_eq sample_resolveEdge
      sample_identities new_Component_def)

lemma sample_build_one_package:
  "resolveComponents sample_env v [app_app] =
     Inr ((stamped_bom v)
       \<lparr>components := [\<lparr>pkg = app_pkg, bomRef = Some ''pkg:npm/app@1.0.0''\<rparr>],
        dependencies :=
          [Dependency (Some ''pkg:npm/app@1.0.0'')
             (Some [Dependency (Some ''pkg:npm/app@1.0.0'') None]),
           Dependency (Some ''pkg:npm/app@1.0.0'') None]\<rparr>)"
  by (simp add: resolveComponents_def buildBom_def processEdge_eq sample_resolveEdge
      sample_identities new_Component_def)




lemma scope_blind_env_fields [simp]:
  "readPkgUp scope_blind_env = scoped_readPkgUp"
  "purl scope_blind_env = sample_purl"
  "componentBomRef scope_blind_env = (\<lambda>p. toPackageURL sample_purl (p\<lparr>scope := None\<rparr>))"
  by (simp_all add: scope_blind_env_def)





section \<open>The claims\<close>

text \<open>
  C3: \<^verbatim>\<open>findDependencyByRef\<close> returns \<^verbatim>\<open>undefined\<close> for every ref and every state of
  the dependency list of the bom, since its loop visits the index keys, which are strings
  without a \<^verbatim>\<open>ref\<close>. So \<^verbatim>\<open>buildBom\<close> never reuses a holder: an edge whose
  dependency identity is new always appends two new holders, one for the requester, linked
  to one for the dependency.
\<close>

theorem findDependencyByRef_returns_undefined:
  "findDependencyByRef b r = Undefined \<and>
   insertEdge e (b, l) rp dp =
     (if toPackageURL (purl e) dp \<in> set l then Inr (b, l)
      else Inr (b\<lparr>components := components b @ [new_Component e dp],
                  dependencies := dependencies b @
                    [Dependency (toPackageURL (purl e) rp)
                       (Some [Dependency (componentBomRef e dp) None]),
                     Dependency (componentBomRef e dp) None]\<rparr>,
                l @ [toPackageURL (purl e) dp]))"
  by (simp add: findDependencyByRef_never_finds insertEdge_eq)

theorem findDependencyByRef_returns_undefined_witness:
  "findDependencyByRef
     \<lparr>metadata_tools = [], components = [],
      dependencies = [Dependency (Some ''pkg:npm/app@1.0.0'') None]\<rparr>
     (Some ''pkg:npm/app@1.0.0'') = Undefined"
  using findDependencyByRef_returns_undefined
    [of "\<lparr>metadata_tools = [], components = [],
          dependencies = [Dependency (Some ''pkg:npm/app@1.0.0'') None]\<rparr>"
        "Some ''pkg:npm/app@1.0.0''" sample_env "[]" app_pkg lodash_pkg]
  by simp

text \<open>
  C8: \<^verbatim>\<open>toPackageURL\<close> returns \<^verbatim>\<open>undefined\<close> exactly when the name of the descriptor
  is absent or empty, and two descriptors with the same name, scope and version, whatever
  else they carry, get the same identity string.
\<close>

theorem toPackageURL_pure:
  fixes p :: "'a descriptor_scheme" and q :: "'b descriptor_scheme"
  shows "(toPackageURL f p = None \<longleftrightarrow> name p = None \<or> name p = Some []) \<and>
     (name p = name q \<and> scope p = scope q \<and> version p = version q \<longrightarrow>
        toPackageURL f p = toPackageURL f q)"
  by (auto simp: toPackageURL_def Let_def split: option.splits)

theorem toPackageURL_pure_witness:
  "toPackageURL sample_purl
     \<lparr>name = Some ''app'', version = Some ''1.0.0'', scope = None, \<dots> = ''/elsewhere/package.json''\<rparr> =
   toPackageURL sample_purl app_pkg \<and>
   toPackageURL sample_purl app_pkg = Some ''pkg:npm/app@1.0.0'' \<and>
   toPackageURL sample_purl \<lparr>name = Some [], version = Some ''1.0.0'', scope = None\<rparr> = None"
  using toPackageURL_pure [of sample_purl app_pkg
      "\<lparr>name = Some ''app'', version = Some ''1.0.0'', scope = None, \<dots> = ''/elsewhere/package.json''\<rparr>"]
    toPackageURL_pure [of sample_purl "\<lparr>name = Some [], version = Some ''1.0.0'', scope = None\<rparr>"]
  by (simp add: app_pkg_def toPackageURL_def sample_purl_def truthy_def)

text \<open>
  C7: an edge whose requester path or dependency path is empty or undefined, or whose
  requester path starts with \<^verbatim>\<open>ignored\<close> or \<^verbatim>\<open>external\<close>, is skipped before any
  descriptor is looked up: processing it leaves the bom and the lookup array as they
  were, and the build gives what it gives without the edge.
\<close>

theorem filtered_edge_contributes_nothing:
  assumes "\<not> truthy (requesterPath m) \<or> \<not> truthy (resource m) \<or>
     (\<exists>r. requesterPath m = Some r \<and> (prefix ''ignored'' r \<or> prefix ''external'' r))"
  shows "edgePaths m = None \<and> processEdge e st m = Inr st \<and>
     buildBom_loop e st0 (ms1 @ m # ms2) = buildBom_loop e st0 (ms1 @ ms2)"
proof -
  have skipped: "edgePaths m = None"
    using assms by (rule edgePaths_filtered)
  then have "resolveEdge e m = None"
    by (simp add: resolveEdge_def)
  then have step: "processEdge e s m = Inr s" for s
    by (rule processEdge_unresolved)
  show ?thesis
    using skipped step buildBom_loop_skip [of e m st0 ms1 ms2] by simp
qed


theorem filtered_edge_contributes_nothing_witness:
  "processEdge sample_env (new_Bom, []) (edge ''external node:fs'' ''/app/src/index.js'') =
     Inr (new_Bom, []) \<and>
   processEdge sample_env (new_Bom, []) (edge ''/app/src/index.js'' []) = Inr (new_Bom, [])"
  using filtered_edge_contributes_nothing
      [where m = "edge ''external node:fs'' ''/app/src/index.js''" and e = sample_env
         and st = "(new_Bom, [])" and ?st0.0 = "(new_Bom, [])" and ?ms1.0 = "[]" and ?ms2.0 = "[]"]
    filtered_edge_contributes_nothing
      [where m = "edge ''/app/src/index.js'' []" and e = sample_env
         and st = "(new_Bom, [])" and ?st0.0 = "(new_Bom, [])" and ?ms1.0 = "[]" and ?ms2.0 = "[]"]
  by (simp add: edge_def requesterPath_def truthy_def)

text \<open>
  C9: when the descriptor lookup of either endpoint throws or finds nothing, the edge
  leaves the bom as it was, the build gives what it gives without the edge, and the
  build returns a bom, not an error.
\<close>

theorem resolution_failure_skips_edge:
  assumes "requesterPath m = Some requester" and "resource m = Some dependency"
    and "lookupFails e requester \<or> lookupFails e dependency"
  shows "processEdge e st m = Inr st \<and>
     buildBom_loop e st0 (ms1 @ m # ms2) = buildBom_loop e st0 (ms1 @ ms2) \<and>
     (\<exists>b. resolveComponents e v (ms1 @ m # ms2) = Inr b)"
proof -
  have "resolveEdge e m = None"
    using assms by (rule resolveEdge_lookup_fails)
  then have step: "processEdge e s m = Inr s" for s
    by (rule processEdge_unresolved)
  show ?thesis
    using step buildBom_loop_skip [of e m st0 ms1 ms2] resolveComponents_total by simp
qed

theorem resolution_failure_skips_edge_witness:
  "processEdge sample_env (new_Bom, []) (edge ''/app/src/index.js'' ''/broken/lib.js'') =
     Inr (new_Bom, []) \<and>
   processEdge sample_env (new_Bom, []) (edge ''/nowhere/main.js'' ''/app/src/index.js'') =
     Inr (new_Bom, [])"
  using resolution_failure_skips_edge
      [where m = "edge ''/app/src/index.js'' ''/broken/lib.js''" and e = sample_env
         and requester = "''/app/src/index.js''" and dependency = "''/broken/lib.js''"
         and st = "(new_Bom, [])" and ?st0.0 = "(new_Bom, [])" and ?ms1.0 = "[]" and ?ms2.0 = "[]"
         and v = "''3.0.0''"]
    resolution_failure_skips_edge
      [where m = "edge ''/nowhere/main.js'' ''/app/src/index.js''" and e = sample_env
         and requester = "''/nowhere/main.js''" and dependency = "''/app/src/index.js''"
         and st = "(new_Bom, [])" and ?st0.0 = "(new_Bom, [])" and ?ms1.0 = "[]" and ?ms2.0 = "[]"
         and v = "''3.0.0''"]
  by (simp add: edge_def requesterPath_def lookupFails_def sample_readPkgUp_def)

text \<open>
  C4: after the build, no two components have the same canonical identity, and for every
  edge that reached the insertion there is exactly one component with the identity of its
  dependency.
\<close>

theorem one_component_per_identity:
  "\<exists>b. resolveComponents e v modules = Inr b \<and>
     distinct (map (identity e) (components b)) \<and>
     (\<forall>m\<in>set modules. \<forall>rp dp. resolveEdge e m = Some (rp, dp) \<longrightarrow>
        length (filter (\<lambda>c. identity e c = toPackageURL (purl e) dp) (components b)) = 1)"
proof -
  obtain b where b: "resolveComponents e v modules = Inr b"
    using resolveComponents_total by blast
  then obtain l where loop: "buildBom_loop e (stamped_bom v, []) modules = Inr (b, l)"
    by (auto simp: resolveComponents_eq)
  have inv: "map (identity e) (components (fst (b, l))) = snd (b, l) \<and> distinct (snd (b, l))"
    using loop
  proof (rule buildBom_loop_invariant)
    show "map (identity e) (components (fst (stamped_bom v, []))) = snd (stamped_bom v, []) \<and> distinct (snd (stamped_bom v, []))"
      by simp
  next
    fix s m s'
    assume "map (identity e) (components (fst s)) = snd s \<and> distinct (snd s)"
      and "processEdge e s m = Inr s'"
    then show "map (identity e) (components (fst s')) = snd s' \<and> distinct (snd s')"
      using processEdge_components_lookup by blast
  qed
  then have ids: "map (identity e) (components b) = l" and dist: "distinct l"
    by simp_all
  have once: "length (filter (\<lambda>c. identity e c = toPackageURL (purl e) dp) (components b)) = 1"
    if "m \<in> set modules" and "resolveEdge e m = Some (rp, dp)" for m rp dp
  proof -
    have "toPackageURL (purl e) dp \<in> set l"
      using buildBom_loop_lookup [OF loop] that by auto
    then have "length (filter (\<lambda>y. y = toPackageURL (purl e) dp) l) = 1"
      using dist by (rule distinct_occurs_once [rotated])
    then have "length (filter (\<lambda>y. y = toPackageURL (purl e) dp)
        (map (identity e) (components b))) = 1"
      by (simp only: ids)
    then show ?thesis
      by (simp add: filter_map comp_def)
  qed
  have "distinct (map (identity e) (components b))"
    using dist by (simp only: ids)
  moreover have "\<forall>m\<in>set modules. \<forall>rp dp. resolveEdge e m = Some (rp, dp) \<longrightarrow>
      length (filter (\<lambda>c. identity e c = toPackageURL (purl e) dp) (components b)) = 1"
    using once by blast
  ultimately show ?thesis
    using b by blast
qed

theorem one_component_per_identity_witness:
  "\<exists>b. resolveComponents sample_env ''3.0.0'' [app_lodash, express_lodash] = Inr b \<and>
     distinct (map (identity sample_env) (components b)) \<and>
     length (filter (\<lambda>c. identity sample_env c = Some ''pkg:npm/lodash@4.17.21'') (components b)) = 1"
proof -
  obtain b where b: "resolveComponents sample_env ''3.0.0'' [app_lodash, express_lodash] = Inr b"
    and d: "distinct (map (identity sample_env) (components b))"
    and o: "\<forall>m\<in>set [app_lodash, express_lodash]. \<forall>rp dp.
      resolveEdge sample_env m = Some (rp, dp) \<longrightarrow>
      length (filter (\<lambda>c. identity sample_env c = toPackageURL (purl sample_env) dp)
        (components b)) = 1"
    using one_component_per_identity [of sample_env "''3.0.0''" "[app_lodash, express_lodash]"]
    by blast
  have "length (filter (\<lambda>c. identity sample_env c = toPackageURL (purl sample_env) lodash_pkg)
      (components b)) = 1"
    using o sample_resolveEdge(2) by simp
  then show ?thesis
    using b d by (simp add: sample_identities)
qed




text \<open>
  C6: every component of the bom that the build returns wraps the descriptor of the
  dependency endpoint of some edge of the input; a descriptor that occurs on the requester
  side only never becomes a component.
\<close>

theorem components_wrap_dependencies:
  "\<exists>b. resolveComponents e v modules = Inr b \<and>
     (\<forall>c\<in>set (components b). \<exists>m\<in>set modules. \<exists>rp. resolveEdge e m = Some (rp, pkg c))"
proof -
  obtain b where b: "resolveComponents e v modules = Inr b"
    using resolveComponents_total by blast
  then obtain l where loop: "buildBom_loop e (stamped_bom v, []) modules = Inr (b, l)"
    by (auto simp: resolveComponents_eq)
  have "\<forall>c\<in>set (components (fst (b, l))).
      \<exists>m\<in>set modules. \<exists>rp. resolveEdge e m = Some (rp, pkg c)"
    using loop
  proof (rule buildBom_loop_invariant)
    show "\<forall>c\<in>set (components (fst (stamped_bom v, []))).
      \<exists>m\<in>set modules. \<exists>rp. resolveEdge e m = Some (rp, pkg c)"
      by simp
  next
    fix s m s'
    assume m: "m \<in> set modules"
      and inv: "\<forall>c\<in>set (components (fst s)). \<exists>m\<in>set modules. \<exists>rp. resolveEdge e m = Some (rp, pkg c)"
      and step: "processEdge e s m = Inr s'"
    show "\<forall>c\<in>set (components (fst s')). \<exists>m\<in>set modules. \<exists>rp. resolveEdge e m = Some (rp, pkg c)"
    proof
      fix c
      assume "c \<in> set (components (fst s'))"
      then have "c \<in> set (components (fst s)) \<or>
          (\<exists>rp. resolveEdge e m = Some (rp, pkg c) \<and> bomRef c = componentBomRef e (pkg c))"
        using processEdge_component_origin [OF step] by simp
      then show "\<exists>m\<in>set modules. \<exists>rp. resolveEdge e m = Some (rp, pkg c)"
        using inv m by blast
    qed
  qed
  then show ?thesis
    using b by simp
qed

theorem components_wrap_dependencies_witness:
  "\<exists>b. resolveComponents sample_env ''3.0.0'' [app_lodash, express_lodash] = Inr b \<and>
     map pkg (components b) = [lodash_pkg] \<and>
     (\<forall>c\<in>set (components b). \<exists>m\<in>set [app_lodash, express_lodash]. \<exists>rp.
        resolveEdge sample_env m = Some (rp, pkg c))"
proof -
  obtain b where b: "resolveComponents sample_env ''3.0.0'' [app_lodash, express_lodash] = Inr b"
    and w: "\<forall>c\<in>set (components b). \<exists>m\<in>set [app_lodash, express_lodash]. \<exists>rp.
        resolveEdge sample_env m = Some (rp, pkg c)"
    using components_wrap_dependencies [of sample_env "''3.0.0''" "[app_lodash, express_lodash]"]
    by blast
  have p: "map pkg (components b) = [lodash_pkg]"
    using b by (auto simp: sample_build_shared_dependency)
  have "resolveComponents sample_env ''3.0.0'' [app_lodash, express_lodash] = Inr b \<and>
     map pkg (components b) = [lodash_pkg] \<and>
     (\<forall>c\<in>set (components b). \<exists>m\<in>set [app_lodash, express_lodash]. \<exists>rp.
        resolveEdge sample_env m = Some (rp, pkg c))"
    using b p w by (intro conjI)
  then show ?thesis
    by (rule exI [where x = b])
qed

text \<open>
  C10: \<^verbatim>\<open>findRoots\<close> marks a node whose \<^verbatim>\<open>requiredBy\<close> list is empty and one of whose
  locations is not inside a node_modules directory. As it stands this fails: the test of
  the code is that the location does not contain the text \<^verbatim>\<open>node_modules\<close>, so a node
  whose only location is \<^verbatim>\<open>/app/my_node_modules_x/c.js\<close>, which is in no directory named
  \<^verbatim>\<open>node_modules\<close>, is left unmarked and out of the roots.
\<close>

theorem findRoots_substring_counterexample:
  "requiredBy backup_node = [] \<and>
   locations backup_node = [''/app/my_node_modules_x/c.js''] \<and>
   \<not> spec_inside_node_modules ''/app/my_node_modules_x/c.js'' \<and>
   findRoots backup_tree = backup_tree"
  by (simp add: backup_node_def backup_tree_def spec_inside_node_modules_def findRoots_def
      rootNode_def includes_str_def sublist_Cons_right)

text \<open>
  C10, amended: \<^verbatim>\<open>findRoots\<close> marks a node and adds it to the roots of the tree if and
  only if its \<^verbatim>\<open>requiredBy\<close> list is empty and one of its locations does not contain
  the text \<^verbatim>\<open>node_modules\<close>; every other node is left as it was, and nothing else is
  added to the roots.
\<close>

theorem findRoots_marks_roots:
  "lookupMap (findRoots t) =
     map (\<lambda>(n, vs). (n, map (\<lambda>(v, node).
        (v, if requiredBy node = [] \<and> (\<exists>l\<in>set (locations node). \<not> includes_str l ''node_modules'')
            then node\<lparr>rootPackage := True\<rparr> else node)) vs)) (lookupMap t) \<and>
   roots (findRoots t) =
     roots t \<union> set (map (\<lambda>node. node\<lparr>rootPackage := True\<rparr>)
       (filter (\<lambda>node. requiredBy node = [] \<and>
                  (\<exists>l\<in>set (locations node). \<not> includes_str l ''node_modules''))
          (nodes_of (lookupMap t))))"
  by (simp add: findRoots_def findRoots_names_eq) (simp add: rootNode_fun)

theorem findRoots_marks_roots_witness:
  "roots (findRoots sample_tree) =
     {\<lparr>requiredBy = [], locations = [''/app/src/index.js''], rootPackage = True\<rparr>} \<and>
   map (\<lambda>(n, vs). (n, map (\<lambda>(v, node). (v, rootPackage node)) vs)) (lookupMap (findRoots sample_tree)) =
     [(''app'', [(''1.0.0'', True)]), (''lodash'', [(''4.17.21'', False), (''3.0.0'', False)])]"
  using findRoots_marks_roots [of sample_tree]
  by (simp add: sample_tree_def nodes_of_def includes_str_def sublist_Cons_right)

text \<open>
  C1: every edge that survives the filter, resolves on both sides and has two defined
  identities leaves the relation from its requester to its dependency in the bom. The code
  does not do so for a dependency that is in the lookup array already: of the edges app to
  lodash and express to lodash, which both qualify, only the first leaves a relation, and
  no holder for express exists.
\<close>

theorem seen_dependency_gets_no_relation:
  "resolveEdge sample_env express_lodash = Some (express_pkg, lodash_pkg) \<and>
   toPackageURL sample_purl express_pkg = Some ''pkg:npm/express@4.18.2'' \<and>
   toPackageURL sample_purl lodash_pkg = Some ''pkg:npm/lodash@4.17.21'' \<and>
   map_sum id relations (resolveComponents sample_env ''3.0.0'' [app_lodash, express_lodash]) =
     Inr [(Some ''pkg:npm/app@1.0.0'', Some ''pkg:npm/lodash@4.17.21'')] \<and>
   map_sum id (map ref \<circ> dependencies)
       (resolveComponents sample_env ''3.0.0'' [app_lodash, express_lodash]) =
     Inr [Some ''pkg:npm/app@1.0.0'', Some ''pkg:npm/lodash@4.17.21'']"
  by (simp add: sample_resolveEdge sample_identities sample_build_shared_dependency
      relations_def holder_links_def)

text \<open>
  C2: the bom has no relation from an identity to itself. The code records one for an
  edge between two files of one package: the requester and the dependency of the edge
  from \<^verbatim>\<open>/app/src/index.js\<close> to \<^verbatim>\<open>/app/src/util.js\<close> both resolve to the
  package app, and the build links the holder of app to a holder of app.
\<close>

theorem edge_inside_package_gives_self_loop:
  "resolveEdge sample_env app_app = Some (app_pkg, app_pkg) \<and>
   map_sum id relations (resolveComponents sample_env ''3.0.0'' [app_app]) =
     Inr [(Some ''pkg:npm/app@1.0.0'', Some ''pkg:npm/app@1.0.0'')]"
  by (simp add: sample_resolveEdge sample_build_one_package relations_def holder_links_def)

end
